theory Spec2Isabelle
  imports Complex_Main
begin

section \<open>Configuration (cache.js, lines 17-45)\<close>

text \<open>
  All clock readings are integers: \<open>Date.now()\<close> in milliseconds, block timestamps in
  seconds. JavaScript numbers that hold integers (heights, counts, sizes, amounts in the
  smallest unit) are modelled as \<open>int\<close>, fractional ones (difficulty, supply, averages)
  as exact rationals; IEEE rounding is not modelled.
\<close>

definition UPDATE_INTERVAL :: int where
  "UPDATE_INTERVAL = 10 * 1000"

definition LIVE_TTL :: int where
  "LIVE_TTL = 60 * 1000"

definition IMMUTABLE_TTL :: int where
  "IMMUTABLE_TTL = 60 * 60 * 1000"

datatype live_key = DASHBOARD | BLOCKS | TIP_HEIGHT | MEMPOOL | BLOCK_REWARD

section \<open>Payloads of the indexing service\<close>

datatype error = ApiError

record block =
  blk_id :: string
  blk_height :: int
  blk_timestamp :: int
  blk_tx_count :: "int option"
  blk_size :: "int option"
  blk_difficulty :: "rat option"

record txin =
  is_coinbase :: bool

record txout =
  out_value :: "int option"

record tx =
  txid :: string
  vin :: "txin list"
  vout :: "txout list"

record supply_data =
  total_amount_float :: "rat option"

text \<open>The four responses of the fan-out (lines 145-150); \<open>Inl\<close> is a rejected fetch.\<close>

record fanout =
  blocks_r :: "error + block list"
  tip_r :: "error + int"
  mempool_r :: "error + string list"
  supply_r :: "error + supply_data"

section \<open>JavaScript arithmetic used by the cycle\<close>

text \<open>\<open>x || 0\<close> on a number that may be undefined.\<close>

definition or0 :: "'a::zero option \<Rightarrow> 'a" where
  "or0 x = (case x of None \<Rightarrow> 0 | Some v \<Rightarrow> v)"

text \<open>Truthiness of a number that may be undefined: \<open>undefined\<close> and \<open>0\<close> are falsy.\<close>

definition truthy :: "int option \<Rightarrow> bool" where
  "truthy x = (case x of None \<Rightarrow> False | Some v \<Rightarrow> v \<noteq> 0)"

text \<open>
  An integer-valued JavaScript number keeps the sign of zero: \<open>Whole 0\<close> is \<open>+0\<close>,
  \<open>MinusZero\<close> is \<open>-0\<close>. Both are the number 0; they differ as divisors.
\<close>

datatype jsint = Whole int | MinusZero

definition int_value :: "jsint \<Rightarrow> int" where
  "int_value n = (case n of Whole k \<Rightarrow> k | MinusZero \<Rightarrow> 0)"

text \<open>
  \<open>Math.round\<close>: the nearest integer, a tie going up; an argument from -0.5 up to, but
  not including, 0 gives \<open>-0\<close>. The argument is a quotient of an integer difference by a
  positive count, so it is never \<open>-0\<close> itself.
\<close>

definition Math_round :: "rat \<Rightarrow> jsint" where
  "Math_round x = (if - (1 / 2) \<le> x \<and> x < 0 then MinusZero else Whole \<lfloor>x + 1 / 2\<rfloor>)"

text \<open>
  The result of a JavaScript division, with its non-finite values and the negative zero
  written out; \<open>Finite 0\<close> is \<open>+0\<close>.
\<close>

datatype jsnum = Finite rat | NegZero | PosInfinity | NegInfinity | NaN

text \<open>The number a result stands for, when it is one.\<close>

definition number :: "jsnum \<Rightarrow> rat option" where
  "number x = (case x of Finite q \<Rightarrow> Some q | NegZero \<Rightarrow> Some 0 | _ \<Rightarrow> None)"

text \<open>
  \<open>a / b\<close> for a dividend that is not \<open>-0\<close> (0 stands for \<open>+0\<close>) and an integer-valued
  divisor: a zero divisor gives an infinity of the sign of \<open>a\<close>, reversed for \<open>-0\<close>, or
  \<open>NaN\<close> for 0 / 0; a zero dividend with a negative divisor gives \<open>-0\<close>.
\<close>

definition js_div :: "rat \<Rightarrow> jsint \<Rightarrow> jsnum" where
  "js_div a b =
     (case b of
        MinusZero \<Rightarrow>
          if a > 0 then NegInfinity else if a < 0 then PosInfinity else NaN
      | Whole n \<Rightarrow>
          if n = 0 then (if a > 0 then PosInfinity else if a < 0 then NegInfinity else NaN)
          else if a = 0 \<and> n < 0 then NegZero
          else Finite (a / of_int n))"

section \<open>The published snapshot and the two caches\<close>

record dashboardData =
  tipHeight :: int
  hashrate :: jsnum
  avgBlockTime :: jsint
  mempoolCount :: nat
  difficulty :: rat
  "supply" :: rat
  blockReward :: int
  blocks :: "block list"
  updatedAt :: int

datatype live_val =
    VDashboard dashboardData
  | VBlocks "block list"
  | VTipHeight int
  | VMempool "string list"
  | VBlockReward int

text \<open>
  Modelled from the spec: the \<open>lru-cache\<close> package behind \<open>liveCache\<close> and
  \<open>immutableCache\<close> is a dependency, not a source file. An entry keeps the clock reading
  of its last \<open>set\<close>; \<open>get\<close> reports it absent once \<open>now - start > ttl\<close>. The live tier
  holds at most the five keys above, far below \<open>max: 100\<close>, so capacity eviction is left
  out.
\<close>

type_synonym ('k, 'v) ttl_cache = "'k \<rightharpoonup> ('v \<times> int)"

definition cache_get :: "int \<Rightarrow> ('k, 'v) ttl_cache \<Rightarrow> int \<Rightarrow> 'k \<Rightarrow> 'v option" where
  "cache_get ttl c now k =
     (case c k of
        None \<Rightarrow> None
      | Some (v, start) \<Rightarrow> if now - start > ttl then None else Some v)"

definition cache_set :: "('k, 'v) ttl_cache \<Rightarrow> int \<Rightarrow> 'k \<Rightarrow> 'v \<Rightarrow> ('k, 'v) ttl_cache" where
  "cache_set c now k v = c(k \<mapsto> (v, now))"

section \<open>The statistics tables (lines 65-86)\<close>

text \<open>
  A calendar day, the text \<open>YYYY-MM-DD\<close> that \<open>toISOString().split('T')[0]\<close> gives, is
  represented by its day number since the epoch: the text is an injective rendering of
  that number, order-preserving for the years 0000 to 9999, and the code only compares
  dates for equality and, between dates taken from the wall clock, for order.
  \<open>date_of_seconds\<close> and \<open>date_of_millis\<close> are the day numbers of an instant; they are
  applied as they are to the wall clock's present (line 253) and to ninety days before it
  (line 90), which are time values of a \<open>Date\<close>. A block's timestamp, which need not
  be one, goes through \<open>isoDate\<close> below.
\<close>

type_synonym date = int

definition date_of_seconds :: "int \<Rightarrow> date" where
  "date_of_seconds t = t div 86400"

definition date_of_millis :: "int \<Rightarrow> date" where
  "date_of_millis ms = ms div 86400000"

text \<open>
  A \<open>Date\<close> holds a time value of at most 8.64e15 ms either side of the epoch; beyond it
  the \<open>Date\<close> is invalid and \<open>toISOString\<close> throws a RangeError. \<open>isoDate\<close> is line 245,
  applied to a block's timestamp: \<open>None\<close> is the throw.
\<close>

definition valid_time_value :: "int \<Rightarrow> bool" where
  "valid_time_value ms = (\<bar>ms\<bar> \<le> 8640000000000000)"

definition isoDate :: "int \<Rightarrow> date option" where
  "isoDate t = (if valid_time_value (t * 1000) then Some (date_of_seconds t) else None)"

record history_row =
  h_height :: int
  h_hash :: string
  h_timestamp :: int
  h_tx_count :: int
  h_size :: int
  h_block_reward :: int
  h_date :: date

record daily_row =
  d_date :: date
  d_tx_count :: int
  d_block_count :: int
  d_total_size :: int
  d_avg_block_size :: rat
  d_updated_at :: int

record tables =
  blocks_history :: "history_row list"
  daily_stats :: "daily_row list"

section \<open>Module state\<close>

text \<open>
  Whether a statement sent to SQLite fails (a full disk, a locked file) is not decided by
  the program. One \<open>sqlite_faults\<close> says, for one run of the persistence step, which of its
  three groups of statements throws: the insert transaction (lines 237-250), the aggregate
  query (lines 265-273), the upsert of the daily record (lines 276-280).
\<close>

record sqlite_faults =
  insert_throws :: bool
  select_throws :: bool
  replace_throws :: bool

definition no_faults :: sqlite_faults where
  "no_faults = \<lparr> insert_throws = False, select_throws = False, replace_throws = False \<rparr>"

text \<open>
  The module's variables, and with them \<open>sqliteFaults\<close>: what SQLite will do in the coming
  runs of the persistence step, in order, one entry used up by each run; when none is left
  SQLite works.
\<close>

record globals =
  updateManagerRunning :: bool
  lastUpdateTime :: int
  liveCache :: "(live_key, live_val) ttl_cache"
  immutableCache :: "(string, tx) ttl_cache"
  db :: "tables option"
  sqliteFaults :: "sqlite_faults list"

definition initial :: globals where
  "initial = \<lparr> updateManagerRunning = False, lastUpdateTime = 0,
               liveCache = Map.empty, immutableCache = Map.empty, db = None,
               sqliteFaults = [] \<rparr>"

definition nextFaults :: "globals \<Rightarrow> sqlite_faults" where
  "nextFaults s = (case sqliteFaults s of [] \<Rightarrow> no_faults | q # later \<Rightarrow> q)"

definition getLive :: "globals \<Rightarrow> int \<Rightarrow> live_key \<Rightarrow> live_val option" where
  "getLive s now k = cache_get LIVE_TTL (liveCache s) now k"

definition setLive :: "int \<Rightarrow> live_key \<Rightarrow> live_val \<Rightarrow> globals \<Rightarrow> globals" where
  "setLive now k v s = s\<lparr>liveCache := cache_set (liveCache s) now k v\<rparr>"

definition getImmutable :: "globals \<Rightarrow> int \<Rightarrow> string \<Rightarrow> tx option" where
  "getImmutable s now k = cache_get IMMUTABLE_TTL (immutableCache s) now k"

definition setImmutable :: "int \<Rightarrow> string \<Rightarrow> tx \<Rightarrow> globals \<Rightarrow> globals" where
  "setImmutable now k v s = s\<lparr>immutableCache := cache_set (immutableCache s) now k v\<rparr>"

section \<open>Statistics functions (lines 53-100 and 233-285)\<close>



text \<open>\<open>INSERT OR IGNORE\<close> on the primary key \<open>height\<close>; \<open>block_reward\<close> takes its default.\<close>

definition insert_or_ignore :: "history_row \<Rightarrow> history_row list \<Rightarrow> history_row list" where
  "insert_or_ignore r tbl =
     (if h_height r \<in> h_height ` set tbl then tbl else tbl @ [r])"

definition row_of_block :: "block \<Rightarrow> date \<Rightarrow> history_row" where
  "row_of_block b d =
     \<lparr> h_height = blk_height b, h_hash = blk_id b, h_timestamp = blk_timestamp b,
       h_tx_count = or0 (blk_tx_count b), h_size = or0 (blk_size b), h_block_reward = 0,
       h_date = d \<rparr>"

text \<open>
  The body of the transaction, lines 243-248. \<open>None\<close> is a RangeError thrown by line 245
  at some block of the batch: the transaction is rolled back, so no row of the batch
  stays, and the error goes to the caller.
\<close>

fun insertMany :: "block list \<Rightarrow> history_row list \<Rightarrow> history_row list option" where
  "insertMany [] tbl = Some tbl"
| "insertMany (b # bs) tbl =
     (case isoDate (blk_timestamp b) of
        None \<Rightarrow> None
      | Some d \<Rightarrow> insertMany bs (insert_or_ignore (row_of_block b d) tbl))"

text \<open>\<open>INSERT OR REPLACE\<close> on the primary key \<open>date\<close>.\<close>

definition insert_or_replace :: "daily_row \<Rightarrow> daily_row list \<Rightarrow> daily_row list" where
  "insert_or_replace r tbl = filter (\<lambda>x. d_date x \<noteq> d_date r) tbl @ [r]"

text \<open>
  SQLite's \<open>SUM\<close> over integers: the running sum is a 64-bit integer, and the query throws
  "integer overflow" as soon as it leaves that range; \<open>None\<close> is the throw. The rows reach
  the aggregate in the order of the primary key \<open>height\<close>. The counts and sizes stored
  are integers a JavaScript number holds exactly, so each is within 64 bits by itself.
\<close>

definition int64 :: "int \<Rightarrow> bool" where
  "int64 x = (- (2 ^ 63) \<le> x \<and> x < 2 ^ 63)"

fun sum_from :: "int \<Rightarrow> int list \<Rightarrow> int option" where
  "sum_from acc [] = Some acc"
| "sum_from acc (x # xs) = (if int64 (acc + x) then sum_from (acc + x) xs else None)"

definition sql_sum :: "int list \<Rightarrow> int option" where
  "sql_sum xs = sum_from 0 xs"

text \<open>
  Lines 261-285, with the faults \<open>q\<close> of this run. Every throw is caught by the function's
  own \<open>try/catch\<close> and leaves the tables as they are.
\<close>

definition updateDailyStats :: "sqlite_faults \<Rightarrow> int \<Rightarrow> date \<Rightarrow> globals \<Rightarrow> globals" where
  "updateDailyStats q now d s =
     (case db s of
        None \<Rightarrow> s
      | Some t \<Rightarrow>
          if select_throws q then s
          else
            (let rows = sort_key h_height (filter (\<lambda>r. h_date r = d) (blocks_history t))
             in case sql_sum (map h_tx_count rows) of
                  None \<Rightarrow> s
                | Some tx_count \<Rightarrow>
                    (case sql_sum (map h_size rows) of
                       None \<Rightarrow> s
                     | Some total_size \<Rightarrow>
                         (let block_count = int (length rows);
                              avg_block_size = of_int total_size / of_int block_count
                          in if block_count > 0
                             then if replace_throws q then s
                                  else s\<lparr>db := Some (t\<lparr>daily_stats :=
                                         insert_or_replace
                                           \<lparr> d_date = d, d_tx_count = tx_count,
                                             d_block_count = block_count,
                                             d_total_size = total_size,
                                             d_avg_block_size = avg_block_size,
                                             d_updated_at = now div 1000 \<rparr>
                                           (daily_stats t)\<rparr>)\<rparr>
                             else s))))"

text \<open>
  Lines 233-259. A run that reaches the \<open>try\<close> block uses up one entry of \<open>sqliteFaults\<close>.
  When the insert transaction throws, by SQLite or by line 245, nothing of the batch is
  inserted and the \<open>catch\<close> of line 256 ends the run before the daily statistics.
\<close>

definition saveBlocksToStats :: "int \<Rightarrow> block list \<Rightarrow> globals \<Rightarrow> globals" where
  "saveBlocksToStats now bs s =
     (case db s of
        None \<Rightarrow> s
      | Some t \<Rightarrow>
          if bs = [] then s
          else
            (let q = nextFaults s;
                 s0 = s\<lparr>sqliteFaults := tl (sqliteFaults s)\<rparr>
             in if insert_throws q then s0
                else
                  (case insertMany bs (blocks_history t) of
                     None \<Rightarrow> s0
                   | Some h \<Rightarrow>
                       updateDailyStats q now (date_of_millis now)
                         (s0\<lparr>db := Some (t\<lparr>blocks_history := h\<rparr>)\<rparr>))))"

section \<open>Update Manager (lines 134-206)\<close>

text \<open>
  The locals a cycle holds once the fan-out has resolved: they are what the rest of the
  body reads, also after it has been suspended on the reward fetch.
\<close>

record locals =
  l_blocks :: "block list"
  l_tipHeight :: int
  l_mempool :: "string list"
  l_supplyData :: supply_data
  l_avgBlockTime :: jsint
  l_latestDifficulty :: rat
  l_hashrate :: jsnum
  l_blockReward :: "int option"

text \<open>Lines 153-155.\<close>

definition avgBlockTime_of :: "block list \<Rightarrow> jsint" where
  "avgBlockTime_of bs =
     (if length bs > 1
      then Math_round
             (of_int (blk_timestamp (bs ! 0) - blk_timestamp (bs ! (length bs - 1)))
              / of_int (int (length bs) - 1))
      else Whole 120)"

text \<open>Line 157: \<open>blocks[0]?.difficulty || 0\<close>.\<close>

definition latestDifficulty_of :: "block list \<Rightarrow> rat" where
  "latestDifficulty_of bs = (case bs of [] \<Rightarrow> 0 | b # _ \<Rightarrow> or0 (blk_difficulty b))"

text \<open>Line 158.\<close>

definition hashrate_of :: "rat \<Rightarrow> jsint \<Rightarrow> jsnum" where
  "hashrate_of latestDifficulty avg = js_div (latestDifficulty * 2 ^ 32) avg"

text \<open>The cached reward as a number; any other payload under the key counts as absent.\<close>

definition cachedReward :: "globals \<Rightarrow> int \<Rightarrow> int option" where
  "cachedReward s now =
     (case getLive s now BLOCK_REWARD of Some (VBlockReward r) \<Rightarrow> Some r | _ \<Rightarrow> None)"

text \<open>
  Lines 165-166: the reward of the first transaction when its first input is a coinbase,
  with that transaction.
\<close>

definition coinbase_reward :: "tx list \<Rightarrow> (int \<times> tx) option" where
  "coinbase_reward txs =
     (case txs of
        [] \<Rightarrow> None
      | t # _ \<Rightarrow>
          (case vin t of
             [] \<Rightarrow> None
           | i # _ \<Rightarrow>
               if is_coinbase i
               then Some (foldl (\<lambda>sum v. sum + or0 (out_value v)) 0 (vout t), t)
               else None))"

text \<open>
  Lines 175-199, run without suspension: the five writes to the live cache, the time of the
  update, the statistics. One clock reading stands for the whole synchronous stretch.
\<close>

definition publish :: "int \<Rightarrow> locals \<Rightarrow> int option \<Rightarrow> globals \<Rightarrow> globals" where
  "publish now l reward s =
     (let d = \<lparr> tipHeight = l_tipHeight l,
                hashrate = l_hashrate l,
                avgBlockTime = l_avgBlockTime l,
                mempoolCount = length (l_mempool l),
                difficulty = l_latestDifficulty l,
                supply = or0 (total_amount_float (l_supplyData l)),
                blockReward = or0 reward,
                blocks = take 15 (l_blocks l),
                updatedAt = now \<rparr>;
          s1 = setLive now DASHBOARD (VDashboard d) s;
          s2 = setLive now BLOCKS (VBlocks (l_blocks l)) s1;
          s3 = setLive now TIP_HEIGHT (VTipHeight (l_tipHeight l)) s2;
          s4 = setLive now MEMPOOL (VMempool (l_mempool l)) s3;
          s5 = (if truthy reward then setLive now BLOCK_REWARD (VBlockReward (or0 reward)) s4
                else s4);
          s6 = s5\<lparr>lastUpdateTime := now\<rparr>
      in saveBlocksToStats now (l_blocks l) s6)"

text \<open>The \<open>finally\<close> block, lines 203-205.\<close>

definition release :: "globals \<Rightarrow> globals" where
  "release s = s\<lparr>updateManagerRunning := False\<rparr>"

text \<open>
  A cycle is suspended twice at most: on the fan-out and on the reward fetch. What runs
  when the fan-out settles either ends the cycle or leaves it waiting for
  \<open>/block/<id>/txs/0\<close> with its locals.
\<close>

datatype progress = Finished globals | AwaitReward locals

definition on_fanout :: "int \<Rightarrow> fanout \<Rightarrow> globals \<Rightarrow> progress" where
  "on_fanout now f s =
     (case blocks_r f of
        Inl e \<Rightarrow> Finished (release s)
      | Inr bs \<Rightarrow>
          (case tip_r f of
             Inl e \<Rightarrow> Finished (release s)
           | Inr tip \<Rightarrow>
               (let mempool = (case mempool_r f of Inl e \<Rightarrow> [] | Inr m \<Rightarrow> m);
                    supplyData = (case supply_r f of
                                    Inl e \<Rightarrow> \<lparr> total_amount_float = Some 0 \<rparr>
                                  | Inr d \<Rightarrow> d);
                    avg = avgBlockTime_of bs;
                    latestDifficulty = latestDifficulty_of bs;
                    reward = cachedReward s now;
                    l = \<lparr> l_blocks = bs, l_tipHeight = tip, l_mempool = mempool,
                          l_supplyData = supplyData, l_avgBlockTime = avg,
                          l_latestDifficulty = latestDifficulty,
                          l_hashrate = hashrate_of latestDifficulty avg,
                          l_blockReward = reward \<rparr>
                in if \<not> truthy reward \<and> bs \<noteq> [] then AwaitReward l
                   else Finished (release (publish now l reward s)))))"

definition on_reward :: "int \<Rightarrow> locals \<Rightarrow> error + tx list \<Rightarrow> globals \<Rightarrow> globals" where
  "on_reward now l r s =
     (case r of
        Inl e \<Rightarrow> release (publish now l (l_blockReward l) s)
      | Inr txs \<Rightarrow>
          (case coinbase_reward txs of
             None \<Rightarrow> release (publish now l (l_blockReward l) s)
           | Some (v, t) \<Rightarrow>
               release (publish now l (Some v) (setImmutable now (''tx:'' @ txid t) t s))))"

text \<open>
  One call of \<open>updateManager\<close> that nothing interleaves with: \<open>t1\<close> and \<open>f\<close> are the
  clock and the responses when the fan-out settles, \<open>t2\<close> and \<open>r\<close> those of the reward
  fetch, read only if that fetch is made.
\<close>

definition updateManager :: "int \<Rightarrow> fanout \<Rightarrow> int \<Rightarrow> error + tx list \<Rightarrow> globals \<Rightarrow> globals" where
  "updateManager t1 f t2 r s =
     (if updateManagerRunning s then s
      else (case on_fanout t1 f (s\<lparr>updateManagerRunning := True\<rparr>) of
              Finished s' \<Rightarrow> s'
            | AwaitReward l \<Rightarrow> on_reward t2 l r (s\<lparr>updateManagerRunning := True\<rparr>)))"

text \<open>Whether that call issues the reward fetch.\<close>

definition fetchesReward :: "int \<Rightarrow> fanout \<Rightarrow> globals \<Rightarrow> bool" where
  "fetchesReward t1 f s =
     (\<not> updateManagerRunning s \<and>
      (case on_fanout t1 f (s\<lparr>updateManagerRunning := True\<rparr>) of
         Finished s' \<Rightarrow> False
       | AwaitReward l \<Rightarrow> True))"

text \<open>Lines 347-349.\<close>

definition isCacheFresh :: "globals \<Rightarrow> int \<Rightarrow> bool" where
  "isCacheFresh s now = (now - lastUpdateTime s < 30000)"

text \<open>Line 318.\<close>

definition getDashboard :: "globals \<Rightarrow> int \<Rightarrow> dashboardData option" where
  "getDashboard s now =
     (case getLive s now DASHBOARD of Some (VDashboard d) \<Rightarrow> Some d | _ \<Rightarrow> None)"

subsection \<open>Calls and completions interleaved on the event loop\<close>

text \<open>
  The event loop holds the module state and the cycle bodies that have started and not
  yet finished, each with the point it is suspended at. An event is a call of
  \<open>updateManager\<close> (the timer's or a request handler's) or the settling of what the
  \<open>i\<close>-th suspended body waits for; a settling that matches no suspended body does
  nothing.
\<close>

datatype pending = AtFanout | AtReward locals

record loop =
  mem :: globals
  inflight :: "pending list"

datatype event =
    Call
  | FanoutSettled nat int fanout
  | RewardSettled nat int "error + tx list"

definition drop_at :: "nat \<Rightarrow> 'a list \<Rightarrow> 'a list" where
  "drop_at i xs = take i xs @ drop (Suc i) xs"

fun step :: "loop \<Rightarrow> event \<Rightarrow> loop" where
  "step w Call =
     (if updateManagerRunning (mem w) then w
      else \<lparr> mem = (mem w)\<lparr>updateManagerRunning := True\<rparr>,
             inflight = inflight w @ [AtFanout] \<rparr>)"
| "step w (FanoutSettled i now f) =
     (if i < length (inflight w) \<and> inflight w ! i = AtFanout
      then (case on_fanout now f (mem w) of
              Finished s' \<Rightarrow> \<lparr> mem = s', inflight = drop_at i (inflight w) \<rparr>
            | AwaitReward l \<Rightarrow> w\<lparr>inflight := (inflight w)[i := AtReward l]\<rparr>)
      else w)"
| "step w (RewardSettled i now r) =
     (if i < length (inflight w)
      then (case inflight w ! i of
              AtFanout \<Rightarrow> w
            | AtReward l \<Rightarrow> \<lparr> mem = on_reward now l r (mem w),
                              inflight = drop_at i (inflight w) \<rparr>)
      else w)"

definition run :: "loop \<Rightarrow> event list \<Rightarrow> loop" where
  "run w es = foldl step w es"

definition idle :: "globals \<Rightarrow> loop" where
  "idle s = \<lparr> mem = s, inflight = [] \<rparr>"

text \<open>
  What the single-flight flag is for: at most one body is suspended, and the flag is set
  exactly while one is.
\<close>

definition single_flight_inv :: "loop \<Rightarrow> bool" where
  "single_flight_inv w \<longleftrightarrow>
     length (inflight w) \<le> 1 \<and> (updateManagerRunning (mem w) \<longleftrightarrow> inflight w \<noteq> [])"

text \<open>The reward a response to the reward fetch yields, if any (lines 164-172).\<close>

definition rewardOutcome :: "error + tx list \<Rightarrow> int option" where
  "rewardOutcome r = (case r of Inl e \<Rightarrow> None | Inr txs \<Rightarrow> map_option fst (coinbase_reward txs))"

section \<open>Sample inputs\<close>

definition sample_block :: "int \<Rightarrow> int \<Rightarrow> int \<Rightarrow> int \<Rightarrow> block" where
  "sample_block h ts txs sz =
     \<lparr> blk_id = ''00ab'', blk_height = h, blk_timestamp = ts, blk_tx_count = Some txs,
       blk_size = Some sz, blk_difficulty = Some 1000 \<rparr>"

definition sample_fanout :: "block list \<Rightarrow> fanout" where
  "sample_fanout bs =
     \<lparr> blocks_r = Inr bs, tip_r = Inr 101, mempool_r = Inl ApiError, supply_r = Inl ApiError \<rparr>"

definition sample_outage :: fanout where
  "sample_outage =
     \<lparr> blocks_r = Inl ApiError, tip_r = Inl ApiError, mempool_r = Inl ApiError,
       supply_r = Inl ApiError \<rparr>"

definition sample_coinbase :: "int \<Rightarrow> tx" where
  "sample_coinbase v =
     \<lparr> txid = ''c0'', vin = [\<lparr> is_coinbase = True \<rparr>], vout = [\<lparr> out_value = Some v \<rparr>] \<rparr>"

text \<open>
  The state after a first cycle whose fan-out settles at 1000 ms and whose reward fetch
  returns, at 2000 ms, a coinbase paying 5000000000.
\<close>

definition cycle_N :: globals where
  "cycle_N =
     updateManager 1000 (sample_fanout [sample_block 100 0 5 1000]) 2000
       (Inr [sample_coinbase 5000000000]) initial"

text \<open>The state after a first cycle whose reward fetch fails.\<close>

definition cycle_no_reward :: globals where
  "cycle_no_reward =
     updateManager 1000 (sample_fanout [sample_block 100 0 5 1000]) 2000 (Inl ApiError) initial"


text \<open>
  Three blocks whose first is stamped one second before the last: the quotient is -0.5.
\<close>

definition sample_backwards :: "block list" where
  "sample_backwards =
     [sample_block 102 99 1 1000, sample_block 101 50 1 1000, sample_block 100 100 1 1000]"

text \<open>Three blocks, newest first, 101 seconds between the newest and the oldest.\<close>

definition sample_window :: "block list" where
  "sample_window =
     [sample_block 102 101 1 1000, sample_block 101 50 1 1000, sample_block 100 0 1 1000]"

definition sample_row :: "int \<Rightarrow> int \<Rightarrow> history_row" where
  "sample_row h ts =
     \<lparr> h_height = h, h_hash = ''ffff'', h_timestamp = ts, h_tx_count = 9, h_size = 9,
       h_block_reward = 0, h_date = date_of_seconds ts \<rparr>"


section \<open>What the parts of a cycle leave untouched\<close>

lemma running_setLive [simp]:
  "updateManagerRunning (setLive now k v s) = updateManagerRunning s"
  by (simp add: setLive_def)

lemma running_setImmutable [simp]:
  "updateManagerRunning (setImmutable now k v s) = updateManagerRunning s"
  by (simp add: setImmutable_def)

lemma running_updateDailyStats [simp]:
  "updateManagerRunning (updateDailyStats q now d s) = updateManagerRunning s"
  by (simp add: updateDailyStats_def Let_def split: option.splits)

lemma running_saveBlocksToStats [simp]:
  "updateManagerRunning (saveBlocksToStats now bs s) = updateManagerRunning s"
  by (simp add: saveBlocksToStats_def Let_def split: option.splits)

lemma running_publish [simp]:
  "updateManagerRunning (publish now l rw s) = updateManagerRunning s"
  by (simp add: publish_def Let_def)

lemma running_release [simp]: "\<not> updateManagerRunning (release s)"
  by (simp add: release_def)

lemma liveCache_updateDailyStats [simp]: "liveCache (updateDailyStats q now d s) = liveCache s"
  by (simp add: updateDailyStats_def Let_def split: option.splits)

lemma lastUpdateTime_updateDailyStats [simp]:
  "lastUpdateTime (updateDailyStats q now d s) = lastUpdateTime s"
  by (simp add: updateDailyStats_def Let_def split: option.splits)

lemma liveCache_saveBlocksToStats [simp]:
  "liveCache (saveBlocksToStats now bs s) = liveCache s"
  by (simp add: saveBlocksToStats_def Let_def split: option.splits)

lemma lastUpdateTime_saveBlocksToStats [simp]:
  "lastUpdateTime (saveBlocksToStats now bs s) = lastUpdateTime s"
  by (simp add: saveBlocksToStats_def Let_def split: option.splits)

lemma liveCache_release [simp]: "liveCache (release s) = liveCache s"
  by (simp add: release_def)

lemma lastUpdateTime_release [simp]: "lastUpdateTime (release s) = lastUpdateTime s"
  by (simp add: release_def)

lemma getLive_release [simp]: "getLive (release s) = getLive s"
  by (simp add: getLive_def fun_eq_iff)

lemma getDashboard_release [simp]: "getDashboard (release s) = getDashboard s"
  by (simp add: getDashboard_def fun_eq_iff)

lemma cachedReward_release [simp]: "cachedReward (release s) = cachedReward s"
  by (simp add: cachedReward_def fun_eq_iff)

lemma liveCache_setImmutable [simp]: "liveCache (setImmutable now k v s) = liveCache s"
  by (simp add: setImmutable_def)

lemma cachedReward_acquire [simp]:
  "cachedReward (s\<lparr>updateManagerRunning := b\<rparr>) = cachedReward s"
  by (simp add: cachedReward_def getLive_def fun_eq_iff)

lemma release_after_acquire:
  "\<not> updateManagerRunning s \<Longrightarrow> release (s\<lparr>updateManagerRunning := True\<rparr>) = s"
  by (simp add: release_def)

section \<open>What publishing writes\<close>

lemma lastUpdateTime_publish [simp]: "lastUpdateTime (publish now l rw s) = now"
  by (simp add: publish_def Let_def setLive_def)

lemma liveCache_publish:
  "liveCache (publish now l rw s) =
     (let c = (liveCache s)
            (DASHBOARD \<mapsto>
               (VDashboard
                  \<lparr> tipHeight = l_tipHeight l, hashrate = l_hashrate l,
                    avgBlockTime = l_avgBlockTime l, mempoolCount = length (l_mempool l),
                    difficulty = l_latestDifficulty l,
                    supply = or0 (total_amount_float (l_supplyData l)),
                    blockReward = or0 rw, blocks = take 15 (l_blocks l), updatedAt = now \<rparr>,
                now),
             BLOCKS \<mapsto> (VBlocks (l_blocks l), now),
             TIP_HEIGHT \<mapsto> (VTipHeight (l_tipHeight l), now),
             MEMPOOL \<mapsto> (VMempool (l_mempool l), now))
      in if truthy rw then c(BLOCK_REWARD \<mapsto> (VBlockReward (or0 rw), now)) else c)"
  by (simp add: publish_def Let_def setLive_def cache_set_def)

lemma getDashboard_publish:
  "getDashboard (publish now l rw s) now =
     Some \<lparr> tipHeight = l_tipHeight l, hashrate = l_hashrate l,
            avgBlockTime = l_avgBlockTime l, mempoolCount = length (l_mempool l),
            difficulty = l_latestDifficulty l,
            supply = or0 (total_amount_float (l_supplyData l)),
            blockReward = or0 rw, blocks = take 15 (l_blocks l), updatedAt = now \<rparr>"
  by (simp add: getDashboard_def getLive_def cache_get_def liveCache_publish Let_def
                LIVE_TTL_def)


lemma reward_key_publish:
  "liveCache (publish now l rw s) BLOCK_REWARD =
     (if truthy rw then Some (VBlockReward (or0 rw), now) else liveCache s BLOCK_REWARD)"
  by (simp add: liveCache_publish Let_def)

section \<open>One uninterrupted cycle\<close>

lemma on_fanout_ok:
  "blocks_r f = Inr bs \<Longrightarrow> tip_r f = Inr tip \<Longrightarrow>
   on_fanout now f s =
     (let l = \<lparr> l_blocks = bs, l_tipHeight = tip,
                l_mempool = (case mempool_r f of Inl e \<Rightarrow> [] | Inr m \<Rightarrow> m),
                l_supplyData = (case supply_r f of
                                  Inl e \<Rightarrow> \<lparr> total_amount_float = Some 0 \<rparr> | Inr d \<Rightarrow> d),
                l_avgBlockTime = avgBlockTime_of bs,
                l_latestDifficulty = latestDifficulty_of bs,
                l_hashrate = hashrate_of (latestDifficulty_of bs) (avgBlockTime_of bs),
                l_blockReward = cachedReward s now \<rparr>
      in if \<not> truthy (cachedReward s now) \<and> bs \<noteq> [] then AwaitReward l
         else Finished (release (publish now l (cachedReward s now) s)))"
  by (simp add: on_fanout_def Let_def)

lemma fetchesReward_ok:
  "\<not> updateManagerRunning s \<Longrightarrow> blocks_r f = Inr bs \<Longrightarrow> tip_r f = Inr tip \<Longrightarrow>
   fetchesReward t1 f s = (\<not> truthy (cachedReward s t1) \<and> bs \<noteq> [])"
  by (simp add: fetchesReward_def on_fanout_ok Let_def)

lemma updateManager_dropped:
  "updateManagerRunning s \<Longrightarrow> updateManager t1 f t2 r s = s"
  by (simp add: updateManager_def)

lemma updateManager_abort:
  "\<not> updateManagerRunning s \<Longrightarrow> isl (blocks_r f) \<or> isl (tip_r f) \<Longrightarrow>
   updateManager t1 f t2 r s = s"
  by (auto simp: updateManager_def on_fanout_def release_after_acquire isl_def
           split: sum.splits)

text \<open>The snapshot a cycle with a resolved fan-out publishes: every field but the reward.\<close>

lemma updateManager_publishes:
  assumes "\<not> updateManagerRunning s" "blocks_r f = Inr bs" "tip_r f = Inr tip"
  shows "\<exists>rw. getDashboard (updateManager t1 f t2 r s) (if fetchesReward t1 f s then t2 else t1) =
     Some \<lparr> tipHeight = tip,
            hashrate = hashrate_of (latestDifficulty_of bs) (avgBlockTime_of bs),
            avgBlockTime = avgBlockTime_of bs,
            mempoolCount = length (case mempool_r f of Inl e \<Rightarrow> [] | Inr m \<Rightarrow> m),
            difficulty = latestDifficulty_of bs,
            supply = or0 (total_amount_float
                      (case supply_r f of Inl e \<Rightarrow> \<lparr> total_amount_float = Some 0 \<rparr> | Inr d \<Rightarrow> d)),
            blockReward = rw, blocks = take 15 bs,
            updatedAt = (if fetchesReward t1 f s then t2 else t1) \<rparr>"
  using assms
  by (auto simp: updateManager_def fetchesReward_def on_fanout_ok on_reward_def Let_def
                 getDashboard_publish
           split: sum.splits option.splits prod.splits)

lemma updateManager_publish_time:
  assumes "\<not> updateManagerRunning s" "blocks_r f = Inr bs" "tip_r f = Inr tip"
  shows "lastUpdateTime (updateManager t1 f t2 r s) = (if fetchesReward t1 f s then t2 else t1)"
  using assms
  by (auto simp: updateManager_def fetchesReward_def on_fanout_ok on_reward_def Let_def
           split: sum.splits option.splits prod.splits)


lemmas sample_defs =
  sample_block_def sample_fanout_def sample_outage_def sample_coinbase_def
  cycle_no_reward_def initial_def

lemmas cycle_defs =
  updateManager_def fetchesReward_def on_fanout_def on_reward_def publish_def release_def
  setLive_def setImmutable_def getLive_def getDashboard_def cachedReward_def cache_get_def
  cache_set_def coinbase_reward_def truthy_def or0_def avgBlockTime_of_def
  latestDifficulty_of_def hashrate_of_def js_div_def Math_round_def saveBlocksToStats_def
  LIVE_TTL_def Let_def

section \<open>Single flight\<close>

lemma on_fanout_Finished_released:
  "on_fanout now f s = Finished s' \<Longrightarrow> \<not> updateManagerRunning s'"
  by (auto simp: on_fanout_def Let_def split: sum.splits if_splits)

lemma on_reward_released: "\<not> updateManagerRunning (on_reward now l r s)"
  by (simp add: on_reward_def split: sum.splits option.splits prod.splits)

lemma step_inv: "single_flight_inv w \<Longrightarrow> single_flight_inv (step w e)"
proof (cases e)
  case Call
  then show "single_flight_inv w \<Longrightarrow> ?thesis"
    by (auto simp: single_flight_inv_def)
next
  case (FanoutSettled i now f)
  assume inv: "single_flight_inv w"
  show ?thesis
  proof (cases "i < length (inflight w) \<and> inflight w ! i = AtFanout")
    case False
    with inv FanoutSettled show ?thesis by auto
  next
    case True
    with inv have i0: "i = 0" and one: "length (inflight w) = 1"
      by (auto simp: single_flight_inv_def)
    show ?thesis
    proof (cases "on_fanout now f (mem w)")
      case (Finished s')
      with True FanoutSettled i0 one on_fanout_Finished_released [OF Finished]
      show ?thesis
        by (simp add: single_flight_inv_def drop_at_def)
    next
      case (AwaitReward l)
      with True FanoutSettled inv show ?thesis
        by (simp add: single_flight_inv_def)
    qed
  qed
next
  case (RewardSettled i now r)
  assume inv: "single_flight_inv w"
  show ?thesis
  proof (cases "i < length (inflight w)")
    case False
    with inv RewardSettled show ?thesis by simp
  next
    case True
    with inv have i0: "i = 0" and one: "length (inflight w) = 1"
      by (auto simp: single_flight_inv_def)
    with True RewardSettled inv on_reward_released show ?thesis
      by (cases "inflight w ! 0") (simp_all add: single_flight_inv_def drop_at_def)
  qed
qed

lemma run_inv: "single_flight_inv w \<Longrightarrow> single_flight_inv (run w es)"
  unfolding run_def by (induction es arbitrary: w) (simp_all add: step_inv)

lemma idle_inv: "\<not> updateManagerRunning s \<Longrightarrow> single_flight_inv (idle s)"
  by (simp add: single_flight_inv_def idle_def)

text \<open>
  C1. Start the event loop with no cycle running and feed it any sequence of calls of
  \<open>updateManager\<close> and settlings of fetches, in any order. Then at most one cycle body is
  suspended, the flag is set exactly while one is, a call made while one is suspended
  changes nothing (it starts no body and is not kept for later), and whenever an event
  ends a body, on the publishing path or on an error path, the flag is clear afterwards.
\<close>

theorem single_flight:
  assumes "\<not> updateManagerRunning s" and "w = run (idle s) es"
  shows "length (inflight w) \<le> 1 \<and>
         (updateManagerRunning (mem w) \<longleftrightarrow> inflight w \<noteq> []) \<and>
         (inflight w \<noteq> [] \<longrightarrow> step w Call = w) \<and>
         (length (inflight (step w e)) < length (inflight w) \<longrightarrow>
            \<not> updateManagerRunning (mem (step w e)))"
proof -
  from assms have inv: "single_flight_inv w"
    by (simp add: idle_inv run_inv)
  then have inv': "single_flight_inv (step w e)"
    by (rule step_inv)
  from inv have "inflight w \<noteq> [] \<longrightarrow> step w Call = w"
    by (simp add: single_flight_inv_def)
  moreover from inv inv' have "length (inflight (step w e)) < length (inflight w) \<longrightarrow>
            \<not> updateManagerRunning (mem (step w e))"
    by (cases "inflight (step w e)") (auto simp: single_flight_inv_def)
  ultimately show ?thesis using inv by (simp add: single_flight_inv_def)
qed

theorem single_flight_witness:
  "\<not> updateManagerRunning initial \<and>
   inflight (run (idle initial) [Call, Call]) = [AtFanout] \<and>
   updateManagerRunning (mem (run (idle initial) [Call, Call])) \<and>
   step (run (idle initial) [Call, Call]) Call = run (idle initial) [Call, Call] \<and>
   inflight (step (run (idle initial) [Call, Call]) (FanoutSettled 0 1000 sample_outage)) = [] \<and>
   \<not> updateManagerRunning
       (mem (step (run (idle initial) [Call, Call]) (FanoutSettled 0 1000 sample_outage)))"
proof -
  have w: "run (idle initial) [Call, Call] =
             \<lparr> mem = initial\<lparr>updateManagerRunning := True\<rparr>, inflight = [AtFanout] \<rparr>"
    by (simp add: run_def idle_def initial_def)
  have i: "\<not> updateManagerRunning initial"
    by (simp add: initial_def)
  have f: "inflight (step (run (idle initial) [Call, Call])
             (FanoutSettled 0 1000 sample_outage)) = []"
    by (simp add: w on_fanout_def sample_outage_def drop_at_def)
  from single_flight [OF i refl, of "[Call, Call]" "FanoutSettled 0 1000 sample_outage"] i f
  show ?thesis by (simp add: w)
qed

section \<open>Partial failure\<close>



section \<open>Freshness\<close>

text \<open>
  C5. \<open>isCacheFresh\<close> at time \<open>now\<close> is true exactly when
  \<open>now - lastUpdateTime < 30000\<close>, and 30000 is three refresh intervals, more than one.
  A call of \<open>updateManager\<close> changes \<open>lastUpdateTime\<close> only when it starts a cycle whose
  blocks and tip-height fetches both succeed; then \<open>lastUpdateTime\<close> is the time of the
  publish, the snapshot read at that time carries it, the cache is fresh at that time and
  no longer fresh three intervals later.
\<close>

theorem freshness:
  "isCacheFresh s now = (now - lastUpdateTime s < 3 * UPDATE_INTERVAL) \<and>
   UPDATE_INTERVAL < 3 * UPDATE_INTERVAL \<and>
   (let s' = updateManager t1 f t2 r s;
        tp = (if fetchesReward t1 f s then t2 else t1)
    in lastUpdateTime s' =
         (if \<not> updateManagerRunning s \<and> \<not> isl (blocks_r f) \<and> \<not> isl (tip_r f)
          then tp else lastUpdateTime s) \<and>
       (\<not> updateManagerRunning s \<and> \<not> isl (blocks_r f) \<and> \<not> isl (tip_r f) \<longrightarrow>
          map_option updatedAt (getDashboard s' tp) = Some tp \<and>
          isCacheFresh s' tp \<and> \<not> isCacheFresh s' (tp + 3 * UPDATE_INTERVAL)))"
proof -
  have fresh: "isCacheFresh s now = (now - lastUpdateTime s < 3 * UPDATE_INTERVAL)"
    and gap: "UPDATE_INTERVAL < 3 * UPDATE_INTERVAL"
    by (simp_all add: isCacheFresh_def UPDATE_INTERVAL_def)
  let ?s' = "updateManager t1 f t2 r s"
  let ?tp = "if fetchesReward t1 f s then t2 else t1"
  show ?thesis
  proof (cases "\<not> updateManagerRunning s \<and> \<not> isl (blocks_r f) \<and> \<not> isl (tip_r f)")
    case True
    then have idle: "\<not> updateManagerRunning s" by simp
    from True obtain bs tip where bs: "blocks_r f = Inr bs" and tip: "tip_r f = Inr tip"
      by (cases "blocks_r f"; cases "tip_r f") auto
    from updateManager_publishes [OF idle bs tip, of t1 t2 r]
    have "map_option updatedAt (getDashboard ?s' ?tp) = Some ?tp"
      by force
    moreover have "lastUpdateTime ?s' = ?tp"
      using idle bs tip by (rule updateManager_publish_time)
    ultimately show ?thesis using True fresh gap
      by (simp add: Let_def isCacheFresh_def UPDATE_INTERVAL_def)
  next
    case False
    have "?s' = s"
    proof (cases "updateManagerRunning s")
      case True
      then show ?thesis by (rule updateManager_dropped)
    next
      case idle: False
      with False show ?thesis by (simp add: updateManager_abort)
    qed
    with False fresh gap show ?thesis by (auto simp: Let_def)
  qed
qed

theorem freshness_witness:
  "\<not> updateManagerRunning initial \<and>
   \<not> isl (blocks_r (sample_fanout [sample_block 100 0 5 1000])) \<and>
   \<not> isl (tip_r (sample_fanout [sample_block 100 0 5 1000])) \<and>
   lastUpdateTime cycle_no_reward = 2000 \<and>
   map_option updatedAt (getDashboard cycle_no_reward 2000) = Some 2000 \<and>
   isCacheFresh cycle_no_reward 2000 \<and>
   isCacheFresh cycle_no_reward 31999 \<and>
   \<not> isCacheFresh cycle_no_reward 32000 \<and>
   lastUpdateTime (updateManager 11000 sample_outage 12000 (Inl ApiError) cycle_no_reward) = 2000"
proof -
  have i: "\<not> updateManagerRunning initial"
    by (simp add: initial_def)
  have fr: "fetchesReward 1000 (sample_fanout [sample_block 100 0 5 1000]) initial"
    by (simp add: sample_defs cycle_defs)
  have ok: "\<not> isl (blocks_r (sample_fanout [sample_block 100 0 5 1000]))"
    "\<not> isl (tip_r (sample_fanout [sample_block 100 0 5 1000]))"
    "isl (blocks_r sample_outage)"
    by (simp_all add: sample_fanout_def sample_outage_def)
  from freshness [of initial 0 1000 "sample_fanout [sample_block 100 0 5 1000]" 2000
      "Inl ApiError"] i fr ok
  have a: "lastUpdateTime cycle_no_reward = 2000"
    "map_option updatedAt (getDashboard cycle_no_reward 2000) = Some 2000"
    "isCacheFresh cycle_no_reward 2000" "\<not> isCacheFresh cycle_no_reward 32000"
    by (simp_all add: Let_def cycle_no_reward_def UPDATE_INTERVAL_def)
  from freshness [of cycle_no_reward 31999 11000 sample_outage 12000 "Inl ApiError"] a ok
  have "isCacheFresh cycle_no_reward 31999"
    "lastUpdateTime (updateManager 11000 sample_outage 12000 (Inl ApiError) cycle_no_reward)
       = 2000"
    by (simp_all add: Let_def UPDATE_INTERVAL_def)
  with a i ok show ?thesis by simp
qed

section \<open>Derived metrics\<close>

lemma number_js_div:
  "int_value b \<noteq> 0 \<Longrightarrow> number (js_div a b) = Some (a / of_int (int_value b))"
  by (cases b) (simp_all add: js_div_def number_def int_value_def)

lemma number_js_div_zero: "int_value b = 0 \<Longrightarrow> number (js_div a b) = None"
  by (cases b) (simp_all add: js_div_def number_def int_value_def)

text \<open>
  C6. In a cycle that starts and whose fan-out succeeds: the published difficulty is that
  of the newest block (0 when the block carries none or the list is empty), and the
  published hashrate is the JavaScript quotient of that difficulty times 2^32 by the
  published \<open>avgBlockTime\<close>. For a nonzero \<open>avgBlockTime\<close> it is the number
  difficulty * 2^32 / avgBlockTime; for a zero one, \<open>+0\<close> or \<open>-0\<close>, it is no number (an
  infinity or \<open>NaN\<close>). With difficulty 1000 and \<open>avgBlockTime\<close> 120 it is
  1000 * 2^32 / 120.
\<close>

theorem hashrate_formula:
  assumes "\<not> updateManagerRunning s" "blocks_r f = Inr bs" "tip_r f = Inr tip"
  shows "\<exists>d. getDashboard (updateManager t1 f t2 r s) (if fetchesReward t1 f s then t2 else t1)
                = Some d \<and>
              difficulty d = (case bs of [] \<Rightarrow> 0 | b # older \<Rightarrow> or0 (blk_difficulty b)) \<and>
              hashrate d = js_div (difficulty d * 2 ^ 32) (avgBlockTime d) \<and>
              (int_value (avgBlockTime d) \<noteq> 0 \<longrightarrow>
                 number (hashrate d)
                   = Some (difficulty d * 2 ^ 32 / of_int (int_value (avgBlockTime d)))) \<and>
              (int_value (avgBlockTime d) = 0 \<longrightarrow> number (hashrate d) = None)"
proof -
  from updateManager_publishes [OF assms, of t1 t2 r] obtain d where
    d: "getDashboard (updateManager t1 f t2 r s) (if fetchesReward t1 f s then t2 else t1) = Some d"
    and h: "hashrate d = hashrate_of (latestDifficulty_of bs) (avgBlockTime_of bs)"
    and a: "avgBlockTime d = avgBlockTime_of bs"
    and dd: "difficulty d = latestDifficulty_of bs"
    by force
  from h a dd
  have 1: "difficulty d = (case bs of [] \<Rightarrow> 0 | b # older \<Rightarrow> or0 (blk_difficulty b))"
    and 2: "hashrate d = js_div (difficulty d * 2 ^ 32) (avgBlockTime d)"
    by (simp_all add: latestDifficulty_of_def hashrate_of_def)
  from 2 have 3: "int_value (avgBlockTime d) \<noteq> 0 \<longrightarrow>
                 number (hashrate d)
                   = Some (difficulty d * 2 ^ 32 / of_int (int_value (avgBlockTime d)))"
    by (simp add: number_js_div)
  from 2 have 4: "int_value (avgBlockTime d) = 0 \<longrightarrow> number (hashrate d) = None"
    by (simp add: number_js_div_zero)
  from d 1 2 3 4 show ?thesis by blast
qed

theorem hashrate_formula_witness:
  "\<not> updateManagerRunning initial \<and>
   blocks_r (sample_fanout [sample_block 100 0 5 1000]) = Inr [sample_block 100 0 5 1000] \<and>
   tip_r (sample_fanout [sample_block 100 0 5 1000]) = Inr 101 \<and>
   blk_difficulty (sample_block 100 0 5 1000) = Some 1000 \<and>
   map_option difficulty (getDashboard cycle_no_reward 2000) = Some 1000 \<and>
   map_option avgBlockTime (getDashboard cycle_no_reward 2000) = Some (Whole 120) \<and>
   map_option hashrate (getDashboard cycle_no_reward 2000) = Some (Finite (1000 * 2 ^ 32 / 120)) \<and>
   blocks_r (sample_fanout sample_backwards) = Inr sample_backwards \<and>
   map_option avgBlockTime
     (getDashboard (updateManager 1000 (sample_fanout sample_backwards) 2000 (Inl ApiError) initial)
        2000) = Some MinusZero \<and>
   map_option hashrate
     (getDashboard (updateManager 1000 (sample_fanout sample_backwards) 2000 (Inl ApiError) initial)
        2000) = Some NegInfinity"
proof -
  have i: "\<not> updateManagerRunning initial"
    by (simp add: initial_def)
  have b: "blocks_r (sample_fanout [sample_block 100 0 5 1000])
             = Inr [sample_block 100 0 5 1000]"
    and t: "tip_r (sample_fanout [sample_block 100 0 5 1000]) = Inr 101"
    and b': "blocks_r (sample_fanout sample_backwards) = Inr sample_backwards"
    and t': "tip_r (sample_fanout sample_backwards) = Inr 101"
    by (simp_all add: sample_fanout_def)
  have fr: "fetchesReward 1000 (sample_fanout [sample_block 100 0 5 1000]) initial"
    "fetchesReward 1000 (sample_fanout sample_backwards) initial"
    by (simp_all add: sample_defs sample_backwards_def cycle_defs)
  have a: "map_option avgBlockTime (getDashboard cycle_no_reward 2000) = Some (Whole 120)"
    by (simp add: sample_defs cycle_defs)
  have a': "map_option avgBlockTime
     (getDashboard (updateManager 1000 (sample_fanout sample_backwards) 2000 (Inl ApiError) initial)
        2000) = Some MinusZero"
    by (simp add: sample_defs sample_backwards_def cycle_defs)
  from hashrate_formula [OF i b t, of 1000 2000 "Inl ApiError"] fr a
  have "map_option difficulty (getDashboard cycle_no_reward 2000) = Some 1000"
    and "map_option hashrate (getDashboard cycle_no_reward 2000)
          = Some (Finite (1000 * 2 ^ 32 / 120))"
    by (auto simp: cycle_no_reward_def sample_block_def or0_def js_div_def)
  moreover from hashrate_formula [OF i b' t', of 1000 2000 "Inl ApiError"] fr a'
  have "map_option hashrate
     (getDashboard (updateManager 1000 (sample_fanout sample_backwards) 2000 (Inl ApiError) initial)
        2000) = Some NegInfinity"
    by (auto simp: sample_backwards_def sample_block_def or0_def js_div_def)
  ultimately show ?thesis using i b t a b' a' by (simp add: sample_block_def)
qed

lemma Math_round_floor: "int_value (Math_round q) = \<lfloor>q + 1 / 2\<rfloor>"
proof (cases "- (1 / 2) \<le> q \<and> q < 0")
  case True
  then have "\<lfloor>q + 1 / 2\<rfloor> = 0" by linarith
  with True show ?thesis by (simp add: Math_round_def int_value_def)
next
  case False
  then show ?thesis by (auto simp: Math_round_def int_value_def)
qed

lemma Math_round_nearest:
  "of_int (int_value (Math_round q)) - 1 / 2 \<le> q \<and>
   q < of_int (int_value (Math_round q)) + 1 / 2"
  unfolding Math_round_floor by linarith

lemma Math_round_MinusZero: "(Math_round q = MinusZero) = (- (1 / 2) \<le> q \<and> q < 0)"
  by (simp add: Math_round_def)

lemma avgBlockTime_of_hd_last:
  "2 \<le> length bs \<Longrightarrow>
   avgBlockTime_of bs =
     Math_round (of_int (blk_timestamp (hd bs) - blk_timestamp (last bs))
                 / of_int (int (length bs) - 1))"
  by (cases bs) (auto simp: avgBlockTime_of_def hd_conv_nth last_conv_nth)

text \<open>
  C7, as the code has it. In a cycle that starts and whose fan-out succeeds with the block
  list \<open>bs\<close>: with two blocks or more, the published \<open>avgBlockTime\<close> is the quotient
  (timestamp of the first block - timestamp of the last) / (count - 1) rounded to the
  nearest integer, a tie going up, so it lies within one half of the quotient (and it is
  the zero \<open>-0\<close> exactly when the quotient is from -0.5 up to, not including, 0); with
  fewer than two blocks it is 120.
\<close>

theorem avgBlockTime_rounded:
  assumes "\<not> updateManagerRunning s" "blocks_r f = Inr bs" "tip_r f = Inr tip"
  shows "\<exists>d. getDashboard (updateManager t1 f t2 r s) (if fetchesReward t1 f s then t2 else t1)
                = Some d \<and>
              (2 \<le> length bs \<longrightarrow>
                 (let q = (of_int (blk_timestamp (hd bs) - blk_timestamp (last bs)) :: rat)
                          / of_int (int (length bs) - 1)
                  in int_value (avgBlockTime d) = \<lfloor>q + 1 / 2\<rfloor> \<and>
                     of_int (int_value (avgBlockTime d)) - 1 / 2 \<le> q \<and>
                     q < of_int (int_value (avgBlockTime d)) + 1 / 2 \<and>
                     (avgBlockTime d = MinusZero) = (- (1 / 2) \<le> q \<and> q < 0))) \<and>
              (length bs < 2 \<longrightarrow> avgBlockTime d = Whole 120)"
proof -
  from updateManager_publishes [OF assms, of t1 t2 r] obtain d where
    d: "getDashboard (updateManager t1 f t2 r s) (if fetchesReward t1 f s then t2 else t1) = Some d"
    and a: "avgBlockTime d = avgBlockTime_of bs"
    by force
  have "length bs < 2 \<longrightarrow> avgBlockTime d = Whole 120"
    using a by (simp add: avgBlockTime_of_def)
  moreover have "2 \<le> length bs \<longrightarrow>
                 (let q = (of_int (blk_timestamp (hd bs) - blk_timestamp (last bs)) :: rat)
                          / of_int (int (length bs) - 1)
                  in int_value (avgBlockTime d) = \<lfloor>q + 1 / 2\<rfloor> \<and>
                     of_int (int_value (avgBlockTime d)) - 1 / 2 \<le> q \<and>
                     q < of_int (int_value (avgBlockTime d)) + 1 / 2 \<and>
                     (avgBlockTime d = MinusZero) = (- (1 / 2) \<le> q \<and> q < 0))"
  proof
    assume two: "2 \<le> length bs"
    let ?q = "(of_int (blk_timestamp (hd bs) - blk_timestamp (last bs)) :: rat)
                / of_int (int (length bs) - 1)"
    from a two have r: "avgBlockTime d = Math_round ?q"
      by (simp add: avgBlockTime_of_hd_last)
    have "int_value (Math_round ?q) = \<lfloor>?q + 1 / 2\<rfloor>"
      by (rule Math_round_floor)
    moreover have "of_int (int_value (Math_round ?q)) - 1 / 2 \<le> ?q \<and>
                   ?q < of_int (int_value (Math_round ?q)) + 1 / 2"
      by (rule Math_round_nearest)
    moreover have "(Math_round ?q = MinusZero) = (- (1 / 2) \<le> ?q \<and> ?q < 0)"
      by (rule Math_round_MinusZero)
    ultimately show "let q = ?q
                  in int_value (avgBlockTime d) = \<lfloor>q + 1 / 2\<rfloor> \<and>
                     of_int (int_value (avgBlockTime d)) - 1 / 2 \<le> q \<and>
                     q < of_int (int_value (avgBlockTime d)) + 1 / 2 \<and>
                     (avgBlockTime d = MinusZero) = (- (1 / 2) \<le> q \<and> q < 0)"
      unfolding Let_def r by blast
  qed
  ultimately show ?thesis using d by blast
qed

theorem avgBlockTime_rounded_witness:
  "\<not> updateManagerRunning initial \<and>
   blocks_r (sample_fanout sample_window) = Inr sample_window \<and>
   tip_r (sample_fanout sample_window) = Inr 101 \<and>
   2 \<le> length sample_window \<and>
   blk_timestamp (hd sample_window) - blk_timestamp (last sample_window) = 101 \<and>
   map_option avgBlockTime
     (getDashboard (updateManager 1000 (sample_fanout sample_window) 2000 (Inl ApiError) initial)
        2000) = Some (Whole 51) \<and>
   length [sample_block 100 0 5 1000] < 2 \<and>
   map_option avgBlockTime (getDashboard cycle_no_reward 2000) = Some (Whole 120)"
proof -
  have i: "\<not> updateManagerRunning initial"
    by (simp add: initial_def)
  have b: "blocks_r (sample_fanout sample_window) = Inr sample_window"
    and t: "tip_r (sample_fanout sample_window) = Inr 101"
    and b1: "blocks_r (sample_fanout [sample_block 100 0 5 1000]) = Inr [sample_block 100 0 5 1000]"
    and t1: "tip_r (sample_fanout [sample_block 100 0 5 1000]) = Inr 101"
    by (simp_all add: sample_fanout_def)
  have fr: "fetchesReward 1000 (sample_fanout sample_window) initial"
    "fetchesReward 1000 (sample_fanout [sample_block 100 0 5 1000]) initial"
    by (simp_all add: sample_defs sample_window_def cycle_defs)
  have w: "2 \<le> length sample_window"
    "blk_timestamp (hd sample_window) - blk_timestamp (last sample_window) = 101"
    by (simp_all add: sample_window_def sample_block_def)
  have v: "map_option avgBlockTime
     (getDashboard (updateManager 1000 (sample_fanout sample_window) 2000 (Inl ApiError) initial)
        2000) = Some (Whole 51)"
    by (simp add: sample_defs sample_window_def cycle_defs)
  from avgBlockTime_rounded [OF i b1 t1, of 1000 2000 "Inl ApiError"] fr
  have "map_option avgBlockTime (getDashboard cycle_no_reward 2000) = Some (Whole 120)"
    by (auto simp: cycle_no_reward_def)
  with avgBlockTime_rounded [OF i b t, of 1000 2000 "Inl ApiError"] v i b t w
  show ?thesis by simp
qed

text \<open>
  C7 as the spec words it fails: for the three sample blocks the quotient is 101 / 2, and
  the published \<open>avgBlockTime\<close> is 51.
\<close>

theorem avgBlockTime_exact_counterexample:
  "map_option avgBlockTime
     (getDashboard (updateManager 1000 (sample_fanout sample_window) 2000 (Inl ApiError) initial)
        2000) = Some (Whole 51) \<and>
   2 \<le> length sample_window \<and>
   (of_int 51 :: rat) \<noteq>
     of_int (blk_timestamp (hd sample_window) - blk_timestamp (last sample_window))
     / of_int (int (length sample_window) - 1)"
  by (simp add: sample_defs sample_window_def cycle_defs)

section \<open>The history table\<close>

lemma insert_or_ignore_distinct:
  "distinct (map h_height tbl) \<Longrightarrow> distinct (map h_height (insert_or_ignore r tbl))"
  by (simp add: insert_or_ignore_def)

lemma insert_or_ignore_keeps:
  "h \<in> h_height ` set tbl \<Longrightarrow>
   filter (\<lambda>x. h_height x = h) (insert_or_ignore r tbl) = filter (\<lambda>x. h_height x = h) tbl"
  by (auto simp: insert_or_ignore_def)

lemma insert_or_ignore_heights:
  "h \<in> h_height ` set tbl \<Longrightarrow> h \<in> h_height ` set (insert_or_ignore r tbl)"
  by (auto simp: insert_or_ignore_def)

lemma insertMany_distinct:
  "distinct (map h_height tbl) \<Longrightarrow> insertMany bs tbl = Some tbl' \<Longrightarrow>
   distinct (map h_height tbl')"
proof (induction bs arbitrary: tbl)
  case Nil
  then show ?case by simp
next
  case (Cons b bs)
  from Cons.prems(2) obtain d where d: "isoDate (blk_timestamp b) = Some d"
    and rest: "insertMany bs (insert_or_ignore (row_of_block b d) tbl) = Some tbl'"
    by (auto split: option.splits)
  from Cons.prems(1) have "distinct (map h_height (insert_or_ignore (row_of_block b d) tbl))"
    by (rule insert_or_ignore_distinct)
  then show ?case using rest by (rule Cons.IH)
qed

lemma insertMany_keeps:
  "h \<in> h_height ` set tbl \<Longrightarrow> insertMany bs tbl = Some tbl' \<Longrightarrow>
   filter (\<lambda>x. h_height x = h) tbl' = filter (\<lambda>x. h_height x = h) tbl"
proof (induction bs arbitrary: tbl)
  case Nil
  then show ?case by simp
next
  case (Cons b bs)
  from Cons.prems(2) obtain d where d: "isoDate (blk_timestamp b) = Some d"
    and rest: "insertMany bs (insert_or_ignore (row_of_block b d) tbl) = Some tbl'"
    by (auto split: option.splits)
  from Cons.prems(1) have "h \<in> h_height ` set (insert_or_ignore (row_of_block b d) tbl)"
    by (rule insert_or_ignore_heights)
  then have "filter (\<lambda>x. h_height x = h) tbl'
             = filter (\<lambda>x. h_height x = h) (insert_or_ignore (row_of_block b d) tbl)"
    using rest by (rule Cons.IH)
  with Cons.prems(1) show ?case
    by (simp add: insert_or_ignore_keeps)
qed

lemma distinct_filter_single:
  "distinct (map f xs) \<Longrightarrow> r \<in> set xs \<Longrightarrow> filter (\<lambda>x. f x = f r) xs = [r]"
proof (induction xs)
  case Nil
  then show ?case by simp
next
  case (Cons a xs)
  show ?case
  proof (cases "a = r")
    case True
    with Cons.prems have "f r \<notin> f ` set xs" by simp
    then have "\<forall>x\<in>set xs. f x \<noteq> f r" by (metis imageI)
    then have "filter (\<lambda>x. f x = f r) xs = []" by (simp add: filter_empty_conv)
    with True show ?thesis by simp
  next
    case False
    with Cons.prems have "r \<in> set xs" "distinct (map f xs)" "f a \<noteq> f r" by force+
    with Cons.IH show ?thesis by simp
  qed
qed

lemma history_updateDailyStats:
  "db s = Some t \<Longrightarrow>
   \<exists>t'. db (updateDailyStats q now d s) = Some t' \<and> blocks_history t' = blocks_history t"
  by (simp add: updateDailyStats_def Let_def split: option.splits)

text \<open>The persistence step leaves the history as it was or with the whole batch inserted.\<close>

lemma history_saveBlocksToStats:
  assumes t: "db s = Some t"
  shows "\<exists>t'. db (saveBlocksToStats now bs s) = Some t' \<and>
           (blocks_history t' = blocks_history t \<or>
            insertMany bs (blocks_history t) = Some (blocks_history t'))"
proof (cases "bs = [] \<or> insert_throws (nextFaults s) \<or> insertMany bs (blocks_history t) = None")
  case True
  with t have "db (saveBlocksToStats now bs s) = Some t"
    by (auto simp: saveBlocksToStats_def Let_def)
  then show ?thesis by simp
next
  case False
  then obtain h where h: "insertMany bs (blocks_history t) = Some h" by auto
  let ?s1 = "s\<lparr>sqliteFaults := tl (sqliteFaults s), db := Some (t\<lparr>blocks_history := h\<rparr>)\<rparr>"
  have "db ?s1 = Some (t\<lparr>blocks_history := h\<rparr>)" by simp
  from history_updateDailyStats [OF this, of "nextFaults s" now "date_of_millis now"]
  obtain t' where "db (updateDailyStats (nextFaults s) now (date_of_millis now) ?s1) = Some t'"
    and "blocks_history t' = h" by auto
  with False t h show ?thesis
    by (simp add: saveBlocksToStats_def Let_def)
qed

text \<open>
  C8. Let the history table hold one row per height and let \<open>r\<close> be one of its rows. After
  the persistence step has run on any batch, also one with a block of \<open>r\<close>'s height and
  other contents, the rows of that height are \<open>r\<close> alone, with every field as it was, and
  the table still holds one row per height.
\<close>

theorem history_insert_idempotent:
  assumes "db s = Some t"
      and "distinct (map h_height (blocks_history t))"
      and "r \<in> set (blocks_history t)"
  shows "\<exists>t'. db (saveBlocksToStats now bs s) = Some t' \<and>
              filter (\<lambda>x. h_height x = h_height r) (blocks_history t') = [r] \<and>
              distinct (map h_height (blocks_history t'))"
proof -
  from history_saveBlocksToStats [OF assms(1), of now bs]
  obtain t' where t': "db (saveBlocksToStats now bs s) = Some t'"
    and hist: "blocks_history t' = blocks_history t \<or>
               insertMany bs (blocks_history t) = Some (blocks_history t')"
    by blast
  have one: "filter (\<lambda>x. h_height x = h_height r) (blocks_history t) = [r]"
    using assms(2,3) by (rule distinct_filter_single)
  from assms(3) have mem: "h_height r \<in> h_height ` set (blocks_history t)" by simp
  from hist have "filter (\<lambda>x. h_height x = h_height r) (blocks_history t') = [r] \<and>
                  distinct (map h_height (blocks_history t'))"
  proof
    assume "blocks_history t' = blocks_history t"
    with one assms(2) show ?thesis by simp
  next
    assume ins: "insertMany bs (blocks_history t) = Some (blocks_history t')"
    from insertMany_keeps [OF mem ins] one insertMany_distinct [OF assms(2) ins]
    show ?thesis by simp
  qed
  with t' show ?thesis by blast
qed

theorem history_insert_idempotent_witness:
  "db (initial\<lparr>db := Some \<lparr> blocks_history = [sample_row 100 7], daily_stats = [] \<rparr>\<rparr>)
     = Some \<lparr> blocks_history = [sample_row 100 7], daily_stats = [] \<rparr> \<and>
   distinct (map h_height [sample_row 100 7]) \<and>
   sample_row 100 7 \<in> set [sample_row 100 7] \<and>
   h_height (row_of_block (sample_block 100 0 5 1000) 0) = h_height (sample_row 100 7) \<and>
   row_of_block (sample_block 100 0 5 1000) 0 \<noteq> sample_row 100 7 \<and>
   map_option blocks_history
     (db (saveBlocksToStats 5000
            [sample_block 100 0 5 1000, sample_block 101 120 3 2000]
            (initial\<lparr>db := Some \<lparr> blocks_history = [sample_row 100 7], daily_stats = [] \<rparr>\<rparr>)))
     = Some [sample_row 100 7, row_of_block (sample_block 101 120 3 2000) 0]"
proof -
  let ?t = "\<lparr> blocks_history = [sample_row 100 7], daily_stats = [] \<rparr>"
  have a: "db (initial\<lparr>db := Some ?t\<rparr>) = Some ?t"
    and b: "distinct (map h_height (blocks_history ?t))"
    and c: "sample_row 100 7 \<in> set (blocks_history ?t)"
    by simp_all
  have d: "map_option blocks_history
     (db (saveBlocksToStats 5000
            [sample_block 100 0 5 1000, sample_block 101 120 3 2000]
            (initial\<lparr>db := Some ?t\<rparr>)))
     = Some [sample_row 100 7, row_of_block (sample_block 101 120 3 2000) 0]"
    by (simp add: saveBlocksToStats_def updateDailyStats_def insert_or_ignore_def
          row_of_block_def sample_row_def sample_block_def Let_def date_of_millis_def
          date_of_seconds_def or0_def insert_or_replace_def isoDate_def valid_time_value_def
          nextFaults_def no_faults_def initial_def sql_sum_def int64_def)
  from history_insert_idempotent [OF a b c, of 5000
      "[sample_block 100 0 5 1000, sample_block 101 120 3 2000]"] d
  show ?thesis
    by (simp add: row_of_block_def sample_row_def sample_block_def)
qed



section \<open>The daily rollup\<close>







lemma sort_key_Nil_iff: "(sort_key k xs = []) = (xs = [])"
proof -
  have "length (sort_key k xs) = length xs" by (rule length_sort)
  then show ?thesis by (metis length_0_conv)
qed







section \<open>The cached block reward\<close>

lemma updateManager_released:
  "\<not> updateManagerRunning s \<Longrightarrow> \<not> updateManagerRunning (updateManager t1 f t2 r s)"
  by (auto simp: updateManager_def on_reward_released
           dest: on_fanout_Finished_released split: progress.splits)

lemma updateManager_ok:
  assumes "\<not> updateManagerRunning s" "blocks_r f = Inr bs" "tip_r f = Inr tip"
  shows "updateManager t1 f t2 r s =
     (let s0 = s\<lparr>updateManagerRunning := True\<rparr>;
          l = \<lparr> l_blocks = bs, l_tipHeight = tip,
                l_mempool = (case mempool_r f of Inl e \<Rightarrow> [] | Inr m \<Rightarrow> m),
                l_supplyData = (case supply_r f of
                                  Inl e \<Rightarrow> \<lparr> total_amount_float = Some 0 \<rparr> | Inr d \<Rightarrow> d),
                l_avgBlockTime = avgBlockTime_of bs,
                l_latestDifficulty = latestDifficulty_of bs,
                l_hashrate = hashrate_of (latestDifficulty_of bs) (avgBlockTime_of bs),
                l_blockReward = cachedReward s t1 \<rparr>
      in if \<not> truthy (cachedReward s t1) \<and> bs \<noteq> [] then on_reward t2 l r s0
         else release (publish t1 l (cachedReward s t1) s0))"
  using assms by (simp add: updateManager_def on_fanout_ok Let_def)

lemma cachedReward_cong:
  "liveCache s' BLOCK_REWARD = liveCache s BLOCK_REWARD \<Longrightarrow> cachedReward s' t = cachedReward s t"
  by (simp add: cachedReward_def getLive_def cache_get_def)

lemma cachedReward_stays_falsy:
  "\<not> truthy (cachedReward s t1) \<Longrightarrow> t1 \<le> t3 \<Longrightarrow> \<not> truthy (cachedReward s t3)"
  by (auto simp: cachedReward_def getLive_def cache_get_def truthy_def
           split: option.splits live_val.splits if_splits)

lemma cachedReward_written:
  "liveCache s BLOCK_REWARD = Some (VBlockReward v, t) \<Longrightarrow> cachedReward s t = Some v"
  by (simp add: cachedReward_def getLive_def cache_get_def LIVE_TTL_def)

text \<open>The reward a cycle publishes and what it does to the reward key, case by case.\<close>

lemma reward_skipped:
  assumes "\<not> updateManagerRunning s" "blocks_r f = Inr bs" "tip_r f = Inr tip"
      and "truthy (cachedReward s t1) \<or> bs = []"
  shows "map_option blockReward (getDashboard (updateManager t1 f t2 r s) t1)
           = Some (or0 (cachedReward s t1))"
    and "liveCache (updateManager t1 f t2 r s) BLOCK_REWARD =
           (if truthy (cachedReward s t1)
            then Some (VBlockReward (or0 (cachedReward s t1)), t1)
            else liveCache s BLOCK_REWARD)"
  using assms
  by (auto simp: updateManager_ok Let_def getDashboard_publish reward_key_publish)

lemma reward_fetched:
  assumes "\<not> updateManagerRunning s" "blocks_r f = Inr bs" "tip_r f = Inr tip"
      and "\<not> truthy (cachedReward s t1)" "bs \<noteq> []"
  shows "map_option blockReward (getDashboard (updateManager t1 f t2 r s) t2)
           = Some (or0 (rewardOutcome r))"
    and "liveCache (updateManager t1 f t2 r s) BLOCK_REWARD =
           (if truthy (rewardOutcome r)
            then Some (VBlockReward (or0 (rewardOutcome r)), t2)
            else liveCache s BLOCK_REWARD)"
  using assms
  by (auto simp: updateManager_ok Let_def on_reward_def rewardOutcome_def getDashboard_publish
                 reward_key_publish truthy_def or0_def
           split: sum.splits option.splits prod.splits)

text \<open>
  C3, as the code has it. In a cycle that starts and whose fan-out succeeds: if, when the
  fan-out settles, the live cache still yields a reward \<open>v\<close> other than 0 (its entry is not
  older than the 60 s time-to-live), the reward fetch is skipped, the published snapshot
  reports \<open>v\<close> and the cache keeps yielding \<open>v\<close>. A reward fetch that fails leaves the reward
  key as it was: it is never overwritten with zero.
\<close>

theorem sticky_reward_while_cached:
  assumes "\<not> updateManagerRunning s" "blocks_r f = Inr bs" "tip_r f = Inr tip"
  shows "(cachedReward s t1 = Some v \<and> v \<noteq> 0 \<longrightarrow>
            \<not> fetchesReward t1 f s \<and>
            map_option blockReward (getDashboard (updateManager t1 f t2 r s) t1) = Some v \<and>
            cachedReward (updateManager t1 f t2 r s) t1 = Some v) \<and>
         (fetchesReward t1 f s \<and> isl r \<longrightarrow>
            liveCache (updateManager t1 f t2 r s) BLOCK_REWARD = liveCache s BLOCK_REWARD)"
proof (intro conjI impI)
  assume c: "cachedReward s t1 = Some v \<and> v \<noteq> 0"
  then have tr: "truthy (cachedReward s t1)" and o: "or0 (cachedReward s t1) = v"
    by (simp_all add: truthy_def or0_def)
  then have "truthy (cachedReward s t1) \<or> bs = []" by simp
  note sk = reward_skipped [OF assms this, of t2 r]
  from tr show "\<not> fetchesReward t1 f s"
    by (simp add: fetchesReward_ok [OF assms])
  from sk(1) o show "map_option blockReward (getDashboard (updateManager t1 f t2 r s) t1) = Some v"
    by simp
  from sk(2) tr o
  have "liveCache (updateManager t1 f t2 r s) BLOCK_REWARD = Some (VBlockReward v, t1)"
    by simp
  then show "cachedReward (updateManager t1 f t2 r s) t1 = Some v"
    by (rule cachedReward_written)
next
  assume a: "fetchesReward t1 f s \<and> isl r"
  then have "\<not> truthy (cachedReward s t1)" "bs \<noteq> []"
    by (simp_all add: fetchesReward_ok [OF assms])
  note fe = reward_fetched [OF assms this, of t2 r]
  from a have "\<not> truthy (rewardOutcome r)"
    by (auto simp: rewardOutcome_def truthy_def isl_def)
  with fe(2) show "liveCache (updateManager t1 f t2 r s) BLOCK_REWARD = liveCache s BLOCK_REWARD"
    by simp
qed

lemma cycle_N_reward: "liveCache cycle_N BLOCK_REWARD = Some (VBlockReward 5000000000, 2000)"
  by (simp add: cycle_N_def sample_defs cycle_defs)

lemma cycle_N_idle: "\<not> updateManagerRunning cycle_N"
  unfolding cycle_N_def by (rule updateManager_released) (simp add: initial_def)

lemma cycle_no_reward_key: "liveCache cycle_no_reward BLOCK_REWARD = None"
  by (simp add: sample_defs cycle_defs)

lemma cycle_no_reward_idle: "\<not> updateManagerRunning cycle_no_reward"
  unfolding cycle_no_reward_def by (rule updateManager_released) (simp add: initial_def)

theorem sticky_reward_while_cached_witness:
  "\<not> updateManagerRunning cycle_N \<and>
   blocks_r (sample_fanout [sample_block 101 120 3 2000]) = Inr [sample_block 101 120 3 2000] \<and>
   tip_r (sample_fanout [sample_block 101 120 3 2000]) = Inr 101 \<and>
   cachedReward cycle_N 11000 = Some 5000000000 \<and>
   \<not> fetchesReward 11000 (sample_fanout [sample_block 101 120 3 2000]) cycle_N \<and>
   map_option blockReward
     (getDashboard
        (updateManager 11000 (sample_fanout [sample_block 101 120 3 2000]) 12000
           (Inl ApiError) cycle_N) 11000) = Some 5000000000 \<and>
   \<not> updateManagerRunning initial \<and>
   fetchesReward 1000 (sample_fanout [sample_block 100 0 5 1000]) initial \<and>
   isl (Inl ApiError :: error + tx list) \<and>
   liveCache cycle_no_reward BLOCK_REWARD = liveCache initial BLOCK_REWARD"
proof -
  have b: "blocks_r (sample_fanout [sample_block 101 120 3 2000])
             = Inr [sample_block 101 120 3 2000]"
    and t: "tip_r (sample_fanout [sample_block 101 120 3 2000]) = Inr 101"
    and b0: "blocks_r (sample_fanout [sample_block 100 0 5 1000])
             = Inr [sample_block 100 0 5 1000]"
    and t0: "tip_r (sample_fanout [sample_block 100 0 5 1000]) = Inr 101"
    by (simp_all add: sample_fanout_def)
  have c: "cachedReward cycle_N 11000 = Some 5000000000"
    by (simp add: cachedReward_def getLive_def cache_get_def cycle_N_reward LIVE_TTL_def)
  have i: "\<not> updateManagerRunning initial"
    by (simp add: initial_def)
  have fr: "fetchesReward 1000 (sample_fanout [sample_block 100 0 5 1000]) initial"
    by (simp add: sample_defs cycle_defs)
  from sticky_reward_while_cached [OF cycle_N_idle b t, of 11000 5000000000 12000 "Inl ApiError"]
    sticky_reward_while_cached [OF i b0 t0, of 1000 0 2000 "Inl ApiError"]
    c fr cycle_N_idle i b t
  show ?thesis
    by (simp add: cycle_no_reward_def)
qed

text \<open>
  C3 as the spec words it fails: the reward is 5000000000 after the first cycle; in the
  next cycle, 68 s later, the cached entry has expired, the reward fetch is made and
  fails, and the snapshot reports 0.
\<close>

theorem sticky_reward_expired_counterexample:
  "cachedReward cycle_N 2000 = Some 5000000000 \<and>
   fetchesReward 70000 (sample_fanout [sample_block 101 120 3 2000]) cycle_N \<and>
   map_option blockReward
     (getDashboard
        (updateManager 70000 (sample_fanout [sample_block 101 120 3 2000]) 71000
           (Inl ApiError) cycle_N) 71000) = Some 0"
proof -
  have b: "blocks_r (sample_fanout [sample_block 101 120 3 2000])
             = Inr [sample_block 101 120 3 2000]"
    and t: "tip_r (sample_fanout [sample_block 101 120 3 2000]) = Inr 101"
    by (simp_all add: sample_fanout_def)
  have c: "cachedReward cycle_N 2000 = Some 5000000000"
    using cycle_N_reward by (rule cachedReward_written)
  have e: "cachedReward cycle_N 70000 = None"
    by (simp add: cachedReward_def getLive_def cache_get_def cycle_N_reward LIVE_TTL_def)
  then have f: "\<not> truthy (cachedReward cycle_N 70000)"
    by (simp add: truthy_def)
  have n: "[sample_block 101 120 3 2000] \<noteq> []" by simp
  from reward_fetched(1) [OF cycle_N_idle b t f n, of 71000 "Inl ApiError"]
  have "map_option blockReward
     (getDashboard
        (updateManager 70000 (sample_fanout [sample_block 101 120 3 2000]) 71000
           (Inl ApiError) cycle_N) 71000) = Some 0"
    by (simp add: rewardOutcome_def or0_def)
  with c f show ?thesis
    by (simp add: fetchesReward_ok [OF cycle_N_idle b t])
qed

text \<open>
  C10, as the code has it. In a cycle that starts and whose fan-out succeeds: the reward
  key is either left as it was or written with a value other than 0. If the cache yields
  no nonzero reward and the reward fetch yields none either (it fails, finds no coinbase,
  or the outputs sum to 0), the snapshot reports 0, the reward key is left as it was, and
  every later cycle whose fan-out succeeds with at least one block makes the reward fetch
  again.
\<close>

theorem reward_key_nonzero:
  assumes "\<not> updateManagerRunning s" "blocks_r f = Inr bs" "tip_r f = Inr tip"
  shows "(let s' = updateManager t1 f t2 r s;
              tp = (if fetchesReward t1 f s then t2 else t1)
          in (liveCache s' BLOCK_REWARD = liveCache s BLOCK_REWARD \<or>
              (\<exists>v. v \<noteq> 0 \<and> liveCache s' BLOCK_REWARD = Some (VBlockReward v, tp))) \<and>
             (\<not> truthy (cachedReward s t1) \<and> or0 (rewardOutcome r) = 0 \<longrightarrow>
                map_option blockReward (getDashboard s' tp) = Some 0 \<and>
                liveCache s' BLOCK_REWARD = liveCache s BLOCK_REWARD \<and>
                (\<forall>t3 f' b' bs' tip'.
                   t1 \<le> t3 \<and> blocks_r f' = Inr (b' # bs') \<and> tip_r f' = Inr tip' \<longrightarrow>
                   fetchesReward t3 f' s')))"
proof -
  let ?s' = "updateManager t1 f t2 r s"
  let ?tp = "if fetchesReward t1 f s then t2 else t1"
  have fr: "fetchesReward t1 f s = (\<not> truthy (cachedReward s t1) \<and> bs \<noteq> [])"
    by (rule fetchesReward_ok [OF assms])
  have truthy_nonzero: "or0 x \<noteq> 0" if "truthy x" for x
    using that by (cases x) (simp_all add: truthy_def or0_def)
  have written: "liveCache ?s' BLOCK_REWARD = liveCache s BLOCK_REWARD \<or>
                 (\<exists>v. v \<noteq> 0 \<and> liveCache ?s' BLOCK_REWARD = Some (VBlockReward v, ?tp))"
  proof (cases "fetchesReward t1 f s")
    case True
    with fr have c: "\<not> truthy (cachedReward s t1)" "bs \<noteq> []" by simp_all
    note key = reward_fetched(2) [OF assms c, of t2 r]
    show ?thesis
    proof (cases "truthy (rewardOutcome r)")
      case t: True
      with key True
      have "liveCache ?s' BLOCK_REWARD = Some (VBlockReward (or0 (rewardOutcome r)), ?tp)"
        by simp
      with truthy_nonzero [OF t] show ?thesis by blast
    next
      case False
      with key show ?thesis by simp
    qed
  next
    case False
    with fr have c: "truthy (cachedReward s t1) \<or> bs = []" by simp
    note key = reward_skipped(2) [OF assms c, of t2 r]
    show ?thesis
    proof (cases "truthy (cachedReward s t1)")
      case t: True
      with key False
      have "liveCache ?s' BLOCK_REWARD = Some (VBlockReward (or0 (cachedReward s t1)), ?tp)"
        by simp
      with truthy_nonzero [OF t] show ?thesis by blast
    next
      case False
      with key show ?thesis by simp
    qed
  qed
  have unset: "map_option blockReward (getDashboard ?s' ?tp) = Some 0 \<and>
               liveCache ?s' BLOCK_REWARD = liveCache s BLOCK_REWARD \<and>
               (\<forall>t3 f' b' bs' tip'.
                   t1 \<le> t3 \<and> blocks_r f' = Inr (b' # bs') \<and> tip_r f' = Inr tip' \<longrightarrow>
                   fetchesReward t3 f' ?s')"
    if falsy: "\<not> truthy (cachedReward s t1)" and zero: "or0 (rewardOutcome r) = 0"
  proof -
    from zero have nt: "\<not> truthy (rewardOutcome r)"
      using truthy_nonzero by blast
    from falsy have z: "or0 (cachedReward s t1) = 0"
      by (cases "cachedReward s t1") (simp_all add: truthy_def or0_def)
    have snap: "map_option blockReward (getDashboard ?s' ?tp) = Some 0"
    proof (cases "bs = []")
      case True
      then have c: "truthy (cachedReward s t1) \<or> bs = []" by simp
      from True fr have "?tp = t1" by simp
      with reward_skipped(1) [OF assms c, of t2 r] z show ?thesis by simp
    next
      case False
      from False fr falsy have "?tp = t2" by simp
      with reward_fetched(1) [OF assms falsy False, of t2 r] zero show ?thesis by simp
    qed
    have key: "liveCache ?s' BLOCK_REWARD = liveCache s BLOCK_REWARD"
    proof (cases "bs = []")
      case True
      then have c: "truthy (cachedReward s t1) \<or> bs = []" by simp
      from reward_skipped(2) [OF assms c, of t2 r] falsy show ?thesis by simp
    next
      case False
      from reward_fetched(2) [OF assms falsy False, of t2 r] nt show ?thesis by simp
    qed
    have idle': "\<not> updateManagerRunning ?s'"
      using assms(1) by (rule updateManager_released)
    have again: "\<forall>t3 f' b' bs' tip'.
                   t1 \<le> t3 \<and> blocks_r f' = Inr (b' # bs') \<and> tip_r f' = Inr tip' \<longrightarrow>
                   fetchesReward t3 f' ?s'"
    proof (intro allI impI, elim conjE)
      fix t3 :: int and f' :: fanout and b' bs' tip'
      assume le: "t1 \<le> t3" and b: "blocks_r f' = Inr (b' # bs')" and t: "tip_r f' = Inr tip'"
      from falsy le have "\<not> truthy (cachedReward s t3)"
        by (rule cachedReward_stays_falsy)
      then have "\<not> truthy (cachedReward ?s' t3)"
        by (simp add: cachedReward_cong [OF key])
      then show "fetchesReward t3 f' ?s'"
        by (simp add: fetchesReward_ok [OF idle' b t])
    qed
    from snap key again show ?thesis by (intro conjI)
  qed
  show ?thesis
    unfolding Let_def
  proof (intro conjI impI)
    show "liveCache ?s' BLOCK_REWARD = liveCache s BLOCK_REWARD \<or>
          (\<exists>v. v \<noteq> 0 \<and> liveCache ?s' BLOCK_REWARD = Some (VBlockReward v, ?tp))"
      by (rule written)
  next
    assume a: "\<not> truthy (cachedReward s t1) \<and> or0 (rewardOutcome r) = 0"
    then have u: "map_option blockReward (getDashboard ?s' ?tp) = Some 0 \<and>
               liveCache ?s' BLOCK_REWARD = liveCache s BLOCK_REWARD \<and>
               (\<forall>t3 f' b' bs' tip'.
                   t1 \<le> t3 \<and> blocks_r f' = Inr (b' # bs') \<and> tip_r f' = Inr tip' \<longrightarrow>
                   fetchesReward t3 f' ?s')"
      using unset by blast
    from u show "map_option blockReward (getDashboard ?s' ?tp) = Some 0" by (rule conjunct1)
    from u show "liveCache ?s' BLOCK_REWARD = liveCache s BLOCK_REWARD" by simp
    from u show "\<forall>t3 f' b' bs' tip'.
                   t1 \<le> t3 \<and> blocks_r f' = Inr (b' # bs') \<and> tip_r f' = Inr tip' \<longrightarrow>
                   fetchesReward t3 f' ?s'" by simp
  qed
qed

theorem reward_key_nonzero_witness:
  "\<not> updateManagerRunning initial \<and>
   blocks_r (sample_fanout [sample_block 100 0 5 1000]) = Inr [sample_block 100 0 5 1000] \<and>
   tip_r (sample_fanout [sample_block 100 0 5 1000]) = Inr 101 \<and>
   \<not> truthy (cachedReward initial 1000) \<and>
   or0 (rewardOutcome (Inr [sample_coinbase 0])) = 0 \<and>
   (1000 :: int) \<le> 11000 \<and>
   map_option blockReward
     (getDashboard
        (updateManager 1000 (sample_fanout [sample_block 100 0 5 1000]) 2000
           (Inr [sample_coinbase 0]) initial) 2000) = Some 0 \<and>
   liveCache
     (updateManager 1000 (sample_fanout [sample_block 100 0 5 1000]) 2000
        (Inr [sample_coinbase 0]) initial) BLOCK_REWARD = None \<and>
   fetchesReward 11000 (sample_fanout [sample_block 100 0 5 1000])
     (updateManager 1000 (sample_fanout [sample_block 100 0 5 1000]) 2000
        (Inr [sample_coinbase 0]) initial)"
proof -
  have i: "\<not> updateManagerRunning initial"
    by (simp add: initial_def)
  have b: "blocks_r (sample_fanout [sample_block 100 0 5 1000]) = Inr [sample_block 100 0 5 1000]"
    and t: "tip_r (sample_fanout [sample_block 100 0 5 1000]) = Inr 101"
    by (simp_all add: sample_fanout_def)
  have c: "\<not> truthy (cachedReward initial 1000)"
    by (simp add: initial_def cachedReward_def getLive_def cache_get_def truthy_def)
  have z: "or0 (rewardOutcome (Inr [sample_coinbase 0])) = 0"
    by (simp add: rewardOutcome_def coinbase_reward_def sample_coinbase_def or0_def)
  have fr: "fetchesReward 1000 (sample_fanout [sample_block 100 0 5 1000]) initial"
    by (simp add: sample_defs cycle_defs)
  have e: "liveCache initial BLOCK_REWARD = None"
    by (simp add: initial_def)
  from reward_key_nonzero [OF i b t, of 1000 2000 "Inr [sample_coinbase 0]"] c z fr b t
  have "map_option blockReward
     (getDashboard
        (updateManager 1000 (sample_fanout [sample_block 100 0 5 1000]) 2000
           (Inr [sample_coinbase 0]) initial) 2000) = Some 0"
   "liveCache
     (updateManager 1000 (sample_fanout [sample_block 100 0 5 1000]) 2000
        (Inr [sample_coinbase 0]) initial) BLOCK_REWARD = liveCache initial BLOCK_REWARD"
   "fetchesReward 11000 (sample_fanout [sample_block 100 0 5 1000])
     (updateManager 1000 (sample_fanout [sample_block 100 0 5 1000]) 2000
        (Inr [sample_coinbase 0]) initial)"
    by (simp_all add: Let_def)
  with i b t c z e show ?thesis by simp
qed

text \<open>
  C10 as the spec words it fails: after a first cycle that could not derive a reward, a
  cycle whose blocks fetch returns the empty list publishes a snapshot with reward 0
  without making the reward fetch.
\<close>

theorem reward_refetch_counterexample:
  "cachedReward cycle_no_reward 11000 = None \<and>
   \<not> fetchesReward 11000 (sample_fanout []) cycle_no_reward \<and>
   lastUpdateTime
     (updateManager 11000 (sample_fanout []) 12000 (Inr [sample_coinbase 5000000000])
        cycle_no_reward) = 11000 \<and>
   map_option blockReward
     (getDashboard
        (updateManager 11000 (sample_fanout []) 12000 (Inr [sample_coinbase 5000000000])
           cycle_no_reward) 11000) = Some 0"
proof -
  have b: "blocks_r (sample_fanout []) = Inr []" and t: "tip_r (sample_fanout []) = Inr 101"
    by (simp_all add: sample_fanout_def)
  have c: "cachedReward cycle_no_reward 11000 = None"
    by (simp add: cachedReward_def getLive_def cache_get_def cycle_no_reward_key)
  have nf: "\<not> fetchesReward 11000 (sample_fanout []) cycle_no_reward"
    by (simp add: fetchesReward_ok [OF cycle_no_reward_idle b t])
  have "truthy (cachedReward cycle_no_reward 11000) \<or> ([] :: block list) = []" by simp
  from reward_skipped(1) [OF cycle_no_reward_idle b t this, of 12000
      "Inr [sample_coinbase 5000000000]"] c
  have "map_option blockReward
     (getDashboard
        (updateManager 11000 (sample_fanout []) 12000 (Inr [sample_coinbase 5000000000])
           cycle_no_reward) 11000) = Some 0"
    by (simp add: or0_def)
  moreover have "lastUpdateTime
     (updateManager 11000 (sample_fanout []) 12000 (Inr [sample_coinbase 5000000000])
        cycle_no_reward) = 11000"
    using updateManager_publish_time [OF cycle_no_reward_idle b t, of 11000 12000
      "Inr [sample_coinbase 5000000000]"] nf by simp
  ultimately show ?thesis using c nf by simp
qed

end
